theory Spec2Isabelle
  imports Complex_Main "HOL-Library.AList"
begin

section \<open>Helios streaming server: data generator\<close>

text \<open>
  The embedding follows \<^verbatim>\<open>streaming-server.py\<close>; the class \<^verbatim>\<open>DataGenerator\<close> of
  \<^verbatim>\<open>streaming-demo-server.py\<close> is the same text, line for line. Python floats are
  idealised as real numbers. Exceptions are values of \<open>py_error\<close>.
\<close>

datatype py_error =
    AttributeError | JSONDecodeError | UnicodeDecodeError | ConnectionClosed | KeyError | TypeError

text \<open>The value \<^verbatim>\<open>json.loads\<close> returns: the Python image of a JSON document.\<close>

datatype json =
    JNull
  | JBool bool
  | JInt int
  | JFloat real
  | JStr string
  | JArr "json list"
  | JObj "(string \<times> json) list"

subsection \<open>The entropy source and the clock\<close>

text \<open>
  One \<open>env\<close> is what the interpreter supplies during one run of a handler:
  \<open>now_iso\<close> is \<^verbatim>\<open>datetime.now().isoformat()\<close>, \<open>now_secs\<close> is \<^verbatim>\<open>time.time()\<close>,
  \<open>rand i\<close> is the \<open>i\<close>-th value of \<^verbatim>\<open>random.random()\<close> (in the unit interval) drawn by
  \<^verbatim>\<open>generate_data_point\<close>, \<open>init_rand i\<close> the \<open>i\<close>-th one drawn by the constructor of
  \<^verbatim>\<open>DataGenerator\<close>, and \<open>gauss_z i\<close> the \<open>i\<close>-th standard normal variate drawn by
  \<^verbatim>\<open>random.gauss\<close>. The clock is read as one value during a run.
\<close>

record env =
  now_iso :: string
  now_secs :: real
  rand :: "nat \<Rightarrow> real"
  init_rand :: "nat \<Rightarrow> real"
  gauss_z :: "nat \<Rightarrow> real"

text \<open>\<^verbatim>\<open>random.uniform(a, b)\<close> is \<^verbatim>\<open>a + (b - a) * random()\<close>.\<close>

definition uniform :: "real \<Rightarrow> real \<Rightarrow> real \<Rightarrow> real" where
  "uniform a b r = a + (b - a) * r"

text \<open>\<^verbatim>\<open>random.gauss(mu, sigma)\<close> is \<^verbatim>\<open>mu + z * sigma\<close> for a standard normal \<open>z\<close>.\<close>

definition gauss :: "real \<Rightarrow> real \<Rightarrow> real \<Rightarrow> real" where
  "gauss mu sigma z = mu + z * sigma"

text \<open>
  \<^verbatim>\<open>random.sin\<close>: the module \<^verbatim>\<open>random\<close> has no attribute \<^verbatim>\<open>sin\<close> (it imports the sine of
  \<^verbatim>\<open>math\<close> under the private name \<^verbatim>\<open>_sin\<close>), so the attribute lookup raises
  \<^verbatim>\<open>AttributeError\<close> whatever the argument is.
\<close>

definition random_sin :: "real \<Rightarrow> py_error + real" where
  "random_sin x = Inl AttributeError"

text \<open>
  \<^verbatim>\<open>round(x, 2)\<close>: the nearest multiple of 0.01, a tie going to the even one. This is
  the rounding on real numbers; Python returns the double nearest to that multiple. The
  bounds proved below for rounded values have limits that are doubles themselves.
\<close>

definition round_half_even :: "real \<Rightarrow> int" where
  "round_half_even x =
     (let f = \<lfloor>x\<rfloor>; d = x - of_int f
      in if d < 1 / 2 then f
         else if 1 / 2 < d then f + 1
         else if even f then f else f + 1)"

definition round2 :: "real \<Rightarrow> real" where
  "round2 x = of_int (round_half_even (x * 100)) / 100"

subsection \<open>DataGenerator\<close>

record DataGenerator =
  source_type :: json
  base_values :: "(string \<times> real) list"
  trend :: real
  volatility :: real

text \<open>
  \<^verbatim>\<open>_init_base_values\<close>: the dictionary in insertion order, together with
  the number of \<^verbatim>\<open>random.random()\<close> draws it consumed, starting at draw \<open>0\<close>.
\<close>

definition init_base_values :: "json \<Rightarrow> (nat \<Rightarrow> real) \<Rightarrow> (string \<times> real) list \<times> nat" where
  "init_base_values src u =
     (if src = JStr ''stock'' then
        ([(''price'', 100 + uniform (-20) 20 (u 0)),
          (''volume'', 1000000),
          (''market_cap'', 1000000000)], 1)
      else if src = JStr ''sensor'' then
        ([(''temperature'', 20 + uniform (-5) 15 (u 0)),
          (''humidity'', 50 + uniform (-20) 20 (u 1)),
          (''pressure'', 1013.25 + uniform (-50) 50 (u 2)),
          (''light'', uniform 0 1000 (u 3))], 4)
      else if src = JStr ''network'' then
        ([(''bandwidth'', uniform 100 1000 (u 0)),
          (''latency'', 10 + uniform 0 50 (u 1)),
          (''packets'', uniform 1000 10000 (u 2)),
          (''errors'', uniform 0 10 (u 3))], 4)
      else if src = JStr ''crypto'' then
        ([(''price'', 50000 + uniform (-10000) 20000 (u 0)),
          (''volume'', uniform 100000000 1000000000 (u 1)),
          (''market_cap'', 1000000000000),
          (''dominance'', uniform 40 60 (u 2))], 3)
      else if src = JStr ''weather'' then
        ([(''temperature'', 15 + uniform (-10) 25 (u 0)),
          (''humidity'', 40 + uniform (-20) 40 (u 1)),
          (''wind_speed'', uniform 0 30 (u 2)),
          (''pressure'', 1013.25 + uniform (-40) 40 (u 3)),
          (''precipitation'', uniform 0 10 (u 4))], 5)
      else ([(''value'', 50)], 0))"

text \<open>\<^verbatim>\<open>DataGenerator.__init__\<close>: the trend is drawn after the base values.\<close>

definition DataGenerator_init :: "json \<Rightarrow> (nat \<Rightarrow> real) \<Rightarrow> DataGenerator" where
  "DataGenerator_init src u =
     (let (bv, k) = init_base_values src u
      in \<lparr>source_type = src, base_values = bv,
          trend = uniform (-0.001) 0.001 (u k), volatility = 0.02\<rparr>)"

text \<open>
  The body of the field loop after \<^verbatim>\<open>seasonal\<close> and \<^verbatim>\<open>noise\<close> are known (lines 87 to 98):
  the new value, the bounds, and the pair of the emitted number
  \<^verbatim>\<open>data["data"][key]\<close> and the stored number \<^verbatim>\<open>self.base_values[key]\<close>.
\<close>

definition raw_value :: "real \<Rightarrow> real \<Rightarrow> real \<Rightarrow> real \<Rightarrow> real" where
  "raw_value base_value tr seasonal noise = base_value * (1 + tr + seasonal + noise)"

definition clamp_value :: "string \<Rightarrow> real \<Rightarrow> real \<Rightarrow> real" where
  "clamp_value key base_value new_value =
     (if key = ''price'' \<and> new_value < 0 then base_value * 0.1
      else if (key = ''humidity'' \<or> key = ''dominance'') \<and> (new_value < 0 \<or> 100 < new_value)
        then max 0 (min 100 new_value)
      else if key = ''temperature'' \<and> (new_value < -50 \<or> 60 < new_value)
        then max (-50) (min 60 new_value)
      else new_value)"

definition update_field :: "string \<Rightarrow> real \<Rightarrow> real \<Rightarrow> real \<Rightarrow> real \<Rightarrow> real \<times> real" where
  "update_field key base_value tr seasonal noise =
     (let new_value = clamp_value key base_value (raw_value base_value tr seasonal noise)
      in (round2 new_value, new_value))"

text \<open>
  One field over a series of calls: each call's stored value is the next call's
  \<^verbatim>\<open>base_value\<close>; the triples are the trend, \<^verbatim>\<open>seasonal\<close> and \<^verbatim>\<open>noise\<close> of each call.
  The result is the list of emitted values and the last stored value.
\<close>

fun update_field_many :: "string \<Rightarrow> real \<Rightarrow> (real \<times> real \<times> real) list \<Rightarrow> real list \<times> real" where
  "update_field_many key base_value [] = ([], base_value)"
| "update_field_many key base_value ((tr, seasonal, noise) # rest) =
     (let (out, new_value) = update_field key base_value tr seasonal noise;
          (outs, final) = update_field_many key new_value rest
      in (out # outs, final))"

text \<open>
  The loop \<^verbatim>\<open>for key, base_value in self.base_values.items()\<close>. It returns the
  exception that stopped it, if any, with the output dictionary and the base
  values as they are at that moment: assignments made before a raise stay.
\<close>

fun update_fields ::
  "env \<Rightarrow> real \<Rightarrow> real \<Rightarrow> nat \<Rightarrow> (string \<times> real) list \<Rightarrow>
   (string \<times> real) list \<Rightarrow> (string \<times> real) list \<Rightarrow>
   py_error option \<times> (string \<times> real) list \<times> (string \<times> real) list" where
  "update_fields e tr vol i [] data bv = (None, data, bv)"
| "update_fields e tr vol i ((key, base_value) # items) data bv =
     (case random_sin (now_secs e / 3600) of
        Inl err \<Rightarrow> (Some err, data, bv)
      | Inr s \<Rightarrow>
          (let seasonal = 0.1 * s;
               noise = gauss 0 vol (gauss_z e i);
               (out, new_value) = update_field key base_value tr seasonal noise
           in update_fields e tr vol (Suc i) items
                (AList.update key out data) (AList.update key new_value bv)))"

record metadata =
  sequence :: int
  quality :: real
  anomaly_score :: real

record data_point =
  dp_timestamp :: string
  dp_source :: json
  dp_data :: "(string \<times> real) list"
  dp_metadata :: metadata

text \<open>
  \<^verbatim>\<open>generate_data_point\<close>: the result or the exception, and the generator as the
  call leaves it. The trend is assigned before the field loop runs.
\<close>

definition step_trend :: "real \<Rightarrow> real \<Rightarrow> real" where
  "step_trend tr r = max (-0.005) (min 0.005 (tr + uniform (-0.0001) 0.0001 r))"

definition generate_data_point :: "env \<Rightarrow> DataGenerator \<Rightarrow> (py_error + data_point) \<times> DataGenerator" where
  "generate_data_point e g =
     (let g1 = g\<lparr>trend := step_trend (trend g) (rand e 0)\<rparr>;
          (err, data, bv) = update_fields e (trend g1) (volatility g1) 0 (base_values g1) [] (base_values g1);
          g2 = g1\<lparr>base_values := bv\<rparr>
      in case err of
           Some x \<Rightarrow> (Inl x, g2)
         | None \<Rightarrow>
             (Inr \<lparr>dp_timestamp = now_iso e, dp_source = source_type g2, dp_data = data,
                   dp_metadata = \<lparr>sequence = \<lfloor>now_secs e * 1000\<rfloor> mod 1000000,
                                  quality = uniform 0.95 1.0 (rand e 1),
                                  anomaly_score = uniform 0 0.1 (rand e 2)\<rparr>\<rparr>, g2))"

text \<open>The generator after a series of calls, one \<open>env\<close> for each call.\<close>

fun generate_many :: "env list \<Rightarrow> DataGenerator \<Rightarrow> DataGenerator" where
  "generate_many [] g = g"
| "generate_many (e # es) g = generate_many es (snd (generate_data_point e g))"

section \<open>Helios streaming server: StreamingServer\<close>

subsection \<open>Connections, messages and the server object\<close>

text \<open>A websocket object is known by its identity.\<close>

type_synonym ws = nat

text \<open>
  The frames the server sends, by their \<^verbatim>\<open>type\<close> field:
  \<^item> \<open>Welcome client_id timestamp available_sources version uptime clients_connected\<close>
  \<^item> \<open>Subscribed source frequency timestamp\<close>
  \<^item> \<open>Unsubscribed timestamp\<close>, \<open>Pong timestamp\<close>
  \<^item> \<open>Error message timestamp\<close>
  \<^item> \<open>Data source data timestamp\<close>
  \<^item> \<open>ServerStats timestamp clients_connected active_sources uptime memory_usage data_points_sent\<close>
\<close>

datatype out_msg =
    Welcome string string "string list" string real nat
  | Subscribed json json string
  | Unsubscribed string
  | Pong string
  | Error string string
  | Data json data_point string
  | ServerStats string nat "json list" real string nat

fun is_data :: "out_msg \<Rightarrow> bool" where
  "is_data (Data source dp ts) = True"
| "is_data m = False"

text \<open>
  What the handler coroutine of one connection is doing: not started, waiting in
  \<^verbatim>\<open>async for message in websocket\<close>, asleep in the loop of \<^verbatim>\<open>start_streaming\<close> (with
  its \<^verbatim>\<open>source\<close> and \<^verbatim>\<open>frequency\<close>), or finished (with the exception that left
  \<^verbatim>\<open>register_client\<close>, if any).
\<close>

datatype task = NoTask | Idle | Streaming json json | Finished "py_error option"

text \<open>
  The server object and its surroundings. \<open>clients\<close> is the set \<^verbatim>\<open>self.clients\<close>, kept as
  the list of its elements without repetition; \<open>data_generators\<close> is the dictionary in
  insertion order; \<open>conn_open\<close> tells whether a connection still accepts frames, \<open>outbox\<close>
  holds the frames sent on it, \<open>log\<close> the exceptions printed by the last
  \<^verbatim>\<open>except\<close> clause of \<^verbatim>\<open>handle_client_message\<close>; \<open>task\<close> and \<open>client_id\<close> are the state
  and the local variable \<^verbatim>\<open>client_id\<close> of each connection's \<^verbatim>\<open>register_client\<close>.
\<close>

record state =
  clients :: "ws list"
  data_generators :: "(json \<times> DataGenerator) list"
  running :: bool
  conn_open :: "ws \<Rightarrow> bool"
  outbox :: "ws \<Rightarrow> out_msg list"
  log :: "py_error list"
  task :: "ws \<Rightarrow> task"
  client_id :: "ws \<Rightarrow> string"

text \<open>\<^verbatim>\<open>StreamingServer.__init__\<close>, before any connection; \<^verbatim>\<open>start_server\<close> sets \<open>running\<close>.\<close>

definition StreamingServer_init :: state where
  "StreamingServer_init =
     \<lparr>clients = [], data_generators = [], running = False,
      conn_open = (\<lambda>w. True), outbox = (\<lambda>w. []), log = [],
      task = (\<lambda>w. NoTask), client_id = (\<lambda>w. [])\<rparr>"

definition start_server :: "state \<Rightarrow> state" where
  "start_server s = s\<lparr>running := True\<rparr>"

text \<open>The operations of a Python \<^verbatim>\<open>set\<close> that the server uses.\<close>

definition set_add :: "'a \<Rightarrow> 'a list \<Rightarrow> 'a list" where
  "set_add x xs = (if x \<in> set xs then xs else xs @ [x])"

text \<open>\<^verbatim>\<open>set.remove\<close> raises \<^verbatim>\<open>KeyError\<close> when the element is absent.\<close>

definition set_remove :: "'a \<Rightarrow> 'a list \<Rightarrow> py_error + 'a list" where
  "set_remove x xs = (if x \<in> set xs then Inr (removeAll x xs) else Inl KeyError)"

text \<open>\<^verbatim>\<open>a -= b\<close>.\<close>

definition set_minus :: "'a list \<Rightarrow> 'a list \<Rightarrow> 'a list" where
  "set_minus xs ys = filter (\<lambda>x. x \<notin> set ys) xs"

text \<open>
  Dictionary keys. Lists and objects are unhashable; numbers and booleans are equal
  keys when they are equal as numbers.
\<close>

fun hashable :: "json \<Rightarrow> bool" where
  "hashable (JArr xs) = False"
| "hashable (JObj kvs) = False"
| "hashable v = True"

fun py_num :: "json \<Rightarrow> real option" where
  "py_num (JBool b) = Some (if b then 1 else 0)"
| "py_num (JInt i) = Some (of_int i)"
| "py_num (JFloat r) = Some r"
| "py_num v = None"

definition py_eq :: "json \<Rightarrow> json \<Rightarrow> bool" where
  "py_eq a b =
     (case (py_num a, py_num b) of
        (Some x, Some y) \<Rightarrow> x = y
      | (None, None) \<Rightarrow> a = b
      | (Some x, None) \<Rightarrow> False
      | (None, Some y) \<Rightarrow> False)"

fun gen_lookup :: "(json \<times> DataGenerator) list \<Rightarrow> json \<Rightarrow> DataGenerator option" where
  "gen_lookup [] k = None"
| "gen_lookup ((k', g) # rest) k = (if py_eq k' k then Some g else gen_lookup rest k)"

fun gen_update :: "json \<Rightarrow> DataGenerator \<Rightarrow> (json \<times> DataGenerator) list \<Rightarrow> (json \<times> DataGenerator) list" where
  "gen_update k g [] = [(k, g)]"
| "gen_update k g ((k', g') # rest) =
     (if py_eq k' k then (k', g) # rest else (k', g') # gen_update k g rest)"

text \<open>
  \<^verbatim>\<open>await websocket.send(json.dumps(m))\<close>: \<open>None\<close> is
  \<^verbatim>\<open>websockets.exceptions.ConnectionClosed\<close>. A send does not suspend the caller.
\<close>

definition send :: "ws \<Rightarrow> out_msg \<Rightarrow> state \<Rightarrow> state option" where
  "send w m s =
     (if conn_open s w then Some (s\<lparr>outbox := (outbox s)(w := outbox s w @ [m])\<rparr>) else None)"

text \<open>
  How a piece of a handler ends: it returns, an exception leaves it, or it is
  suspended in \<^verbatim>\<open>asyncio.sleep\<close> inside the streaming loop.
\<close>

datatype outcome = Returned | Raised py_error | Suspended json json

definition send_or_raise :: "ws \<Rightarrow> out_msg \<Rightarrow> state \<Rightarrow> outcome \<times> state" where
  "send_or_raise w m s =
     (case send w m s of None \<Rightarrow> (Raised ConnectionClosed, s) | Some s1 \<Rightarrow> (Returned, s1))"

subsection \<open>Streaming to one client\<close>

text \<open>\<^verbatim>\<open>frequency / 1000.0\<close>: a number (or a boolean, which is an integer) divides.\<close>

fun sleep_seconds :: "json \<Rightarrow> py_error + real" where
  "sleep_seconds (JInt i) = Inr (of_int i / 1000)"
| "sleep_seconds (JFloat r) = Inr (r / 1000)"
| "sleep_seconds (JBool b) = Inr ((if b then 1 else 0) / 1000)"
| "sleep_seconds v = Inl TypeError"

text \<open>
  One pass of \<^verbatim>\<open>while websocket in self.clients\<close>, from the test to the
  \<^verbatim>\<open>asyncio.sleep\<close>, with the clause \<^verbatim>\<open>except ConnectionClosed: pass\<close> around it. The
  generator object bound to \<^verbatim>\<open>generator\<close> is the dictionary's entry for \<^verbatim>\<open>source\<close>:
  entries are never replaced or deleted.
\<close>

definition stream_once :: "env \<Rightarrow> ws \<Rightarrow> json \<Rightarrow> json \<Rightarrow> state \<Rightarrow> outcome \<times> state" where
  "stream_once e w source frequency s =
     (if w \<notin> set (clients s) then (Returned, s)
      else case gen_lookup (data_generators s) source of
             None \<Rightarrow> (Raised KeyError, s)
           | Some g \<Rightarrow>
               (let (r, g') = generate_data_point e g;
                    s1 = s\<lparr>data_generators := gen_update source g' (data_generators s)\<rparr>
                in case r of
                     Inl err \<Rightarrow> (Raised err, s1)
                   | Inr dp \<Rightarrow>
                       (case send w (Data source dp (now_iso e)) s1 of
                          None \<Rightarrow> (Returned, s1)
                        | Some s2 \<Rightarrow>
                            (case sleep_seconds frequency of
                               Inl err \<Rightarrow> (Raised err, s2)
                             | Inr secs \<Rightarrow> (Suspended source frequency, s2)))))"

text \<open>\<^verbatim>\<open>start_streaming\<close> up to its first suspension.\<close>

definition start_streaming :: "env \<Rightarrow> ws \<Rightarrow> json \<Rightarrow> json \<Rightarrow> state \<Rightarrow> outcome \<times> state" where
  "start_streaming e w source frequency s =
     (case gen_lookup (data_generators s) source of
        None \<Rightarrow> (Raised KeyError, s)
      | Some g \<Rightarrow>
          (case send w (Subscribed source frequency (now_iso e)) s of
             None \<Rightarrow> (Raised ConnectionClosed, s)
           | Some s1 \<Rightarrow> stream_once e w source frequency s1))"

subsection \<open>handle\_client\_message\<close>

text \<open>\<^verbatim>\<open>d.get(k, default)\<close> on a dictionary.\<close>

definition dict_get :: "(string \<times> json) list \<Rightarrow> string \<Rightarrow> json \<Rightarrow> json" where
  "dict_get d k dflt = (case map_of d k of None \<Rightarrow> dflt | Some v \<Rightarrow> v)"

text \<open>
  The \<^verbatim>\<open>try\<close> body after \<^verbatim>\<open>json.loads\<close> returned \<open>data\<close>. Only a dictionary has
  \<^verbatim>\<open>get\<close>; \<^verbatim>\<open>data.get("type")\<close> is \<^verbatim>\<open>None\<close> when the key is absent.
\<close>

definition handle_body :: "env \<Rightarrow> ws \<Rightarrow> json \<Rightarrow> state \<Rightarrow> outcome \<times> state" where
  "handle_body e w data s =
     (case data of
        JObj d \<Rightarrow>
          (let msg_type = dict_get d ''type'' JNull in
           if msg_type = JStr ''subscribe'' then
             (let source = dict_get d ''source'' (JStr ''stock'');
                  frequency = dict_get d ''frequency'' (JInt 500)
              in if \<not> hashable source then (Raised TypeError, s)
                 else
                   (let s1 = (if gen_lookup (data_generators s) source = None
                              then s\<lparr>data_generators :=
                                       gen_update source (DataGenerator_init source (init_rand e))
                                         (data_generators s)\<rparr>
                              else s)
                    in start_streaming e w source frequency s1))
           else if msg_type = JStr ''unsubscribe'' then
             send_or_raise w (Unsubscribed (now_iso e)) s
           else if msg_type = JStr ''ping'' then
             send_or_raise w (Pong (now_iso e)) s
           else (Returned, s))
      | JNull \<Rightarrow> (Raised AttributeError, s)
      | JBool b \<Rightarrow> (Raised AttributeError, s)
      | JInt i \<Rightarrow> (Raised AttributeError, s)
      | JFloat r \<Rightarrow> (Raised AttributeError, s)
      | JStr x \<Rightarrow> (Raised AttributeError, s)
      | JArr xs \<Rightarrow> (Raised AttributeError, s))"

text \<open>The clause \<^verbatim>\<open>except Exception as e: print(...)\<close>.\<close>

definition catch_all :: "outcome \<times> state \<Rightarrow> outcome \<times> state" where
  "catch_all r =
     (case r of
        (Raised err, s) \<Rightarrow> (Returned, s\<lparr>log := log s @ [err]\<rparr>)
      | (Returned, s) \<Rightarrow> (Returned, s)
      | (Suspended source frequency, s) \<Rightarrow> (Suspended source frequency, s))"

text \<open>
  \<^verbatim>\<open>handle_client_message\<close>, given what \<^verbatim>\<open>json.loads(message)\<close> did: \<open>Inl\<close> the exception
  it raised, \<open>Inr\<close> the value it returned. The reply of the clause
  \<^verbatim>\<open>except json.JSONDecodeError\<close> is sent outside the \<^verbatim>\<open>try\<close> body, so its failure leaves
  the function.
\<close>

definition handle_client_message :: "env \<Rightarrow> ws \<Rightarrow> py_error + json \<Rightarrow> state \<Rightarrow> outcome \<times> state" where
  "handle_client_message e w loaded s =
     (case loaded of
        Inl err \<Rightarrow>
          (if err = JSONDecodeError
           then send_or_raise w (Error ''Invalid JSON message'' (now_iso e)) s
           else catch_all (Raised err, s))
      | Inr data \<Rightarrow> catch_all (handle_body e w data s))"

text \<open>
  The streaming loop waking from \<^verbatim>\<open>asyncio.sleep\<close>: the next pass, still inside the
  \<^verbatim>\<open>try\<close> of \<^verbatim>\<open>handle_client_message\<close>.
\<close>

definition resume_streaming :: "env \<Rightarrow> ws \<Rightarrow> json \<Rightarrow> json \<Rightarrow> state \<Rightarrow> outcome \<times> state" where
  "resume_streaming e w source frequency s = catch_all (stream_once e w source frequency s)"

subsection \<open>register\_client\<close>

text \<open>\<^verbatim>\<open>str(n)\<close> for a natural number.\<close>

definition digit :: "nat \<Rightarrow> char" where
  "digit n = ''0123456789'' ! n"

function str_nat :: "nat \<Rightarrow> string" where
  "str_nat n = (if n < 10 then [digit n] else str_nat (n div 10) @ [digit (n mod 10)])"
  by pat_completeness auto
termination
  by (relation "measure (\<lambda>n. n)") auto

declare str_nat.simps [simp del]

definition available_sources :: "string list" where
  "available_sources = [''stock'', ''sensor'', ''network'', ''crypto'', ''weather'']"

text \<open>
  The clauses \<^verbatim>\<open>except ConnectionClosed: pass\<close> and \<^verbatim>\<open>finally\<close> of
  \<^verbatim>\<open>register_client\<close>, entered with the exception that left the \<^verbatim>\<open>try\<close> body, if any.
  An exception raised by the \<^verbatim>\<open>finally\<close> clause replaces the pending one.
\<close>

definition register_finish :: "py_error option \<Rightarrow> ws \<Rightarrow> state \<Rightarrow> state" where
  "register_finish exc w s =
     (let pending = (if exc = Some ConnectionClosed then None else exc)
      in case set_remove w (clients s) of
           Inl err \<Rightarrow> s\<lparr>task := (task s)(w := Finished (Some err))\<rparr>
         | Inr cs \<Rightarrow> s\<lparr>clients := cs, task := (task s)(w := Finished pending)\<rparr>)"

text \<open>\<^verbatim>\<open>register_client\<close> from its start to the first wait for a message.\<close>

definition register_enter :: "env \<Rightarrow> ws \<Rightarrow> state \<Rightarrow> state" where
  "register_enter e w s =
     (let s1 = s\<lparr>clients := set_add w (clients s)\<rparr>;
          cid = ''client_'' @ str_nat (length (clients s1));
          s2 = s1\<lparr>client_id := (client_id s1)(w := cid)\<rparr>;
          welcome_msg = Welcome cid (now_iso e) available_sources ''1.0.0'' (now_secs e)
                          (length (clients s2))
      in case send w welcome_msg s2 of
           None \<Rightarrow> register_finish (Some ConnectionClosed) w s2
         | Some s3 \<Rightarrow> s3\<lparr>task := (task s3)(w := Idle)\<rparr>)"

text \<open>What \<^verbatim>\<open>register_client\<close> does with the way a message's handling ended.\<close>

definition after_handling :: "ws \<Rightarrow> outcome \<times> state \<Rightarrow> state" where
  "after_handling w r =
     (case r of
        (Returned, s) \<Rightarrow> s\<lparr>task := (task s)(w := Idle)\<rparr>
      | (Suspended source frequency, s) \<Rightarrow> s\<lparr>task := (task s)(w := Streaming source frequency)\<rparr>
      | (Raised err, s) \<Rightarrow> register_finish (Some err) w s)"

subsection \<open>broadcast\_server\_stats\<close>

text \<open>
  The loop \<^verbatim>\<open>for client in self.clients\<close>: the frame goes to each client in turn; the
  clients whose send raised \<^verbatim>\<open>ConnectionClosed\<close> are collected in \<^verbatim>\<open>disconnected\<close>.
\<close>

fun send_all :: "out_msg \<Rightarrow> ws list \<Rightarrow> ws list \<Rightarrow> state \<Rightarrow> ws list \<times> state" where
  "send_all m [] disconnected s = (disconnected, s)"
| "send_all m (client # rest) disconnected s =
     (case send client m s of
        None \<Rightarrow> send_all m rest (set_add client disconnected) s
      | Some s1 \<Rightarrow> send_all m rest disconnected s1)"

definition stats_msg :: "env \<Rightarrow> state \<Rightarrow> out_msg" where
  "stats_msg e s =
     ServerStats (now_iso e) (length (clients s)) (map fst (data_generators s)) (now_secs e)
       ''N/A'' (sum_list (map (\<lambda>(k, g). length (base_values g)) (data_generators s)))"

text \<open>One pass of \<^verbatim>\<open>while self.running\<close>, up to the \<^verbatim>\<open>asyncio.sleep(5)\<close>.\<close>

definition broadcast_tick :: "env \<Rightarrow> state \<Rightarrow> state" where
  "broadcast_tick e s =
     (if \<not> running s then s
      else if clients s = [] then s
      else
        (let stats = stats_msg e s;
             (disconnected, s1) = send_all stats (clients s) [] s
         in s1\<lparr>clients := set_minus (clients s1) disconnected\<rparr>))"

subsection \<open>The event loop\<close>

text \<open>
  The coroutines run one at a time and give way only where they wait: for the next
  message, in \<^verbatim>\<open>asyncio.sleep\<close>. An event is one such stretch of one coroutine, or a
  move of the peer.
  \<^item> \<open>Connect w\<close>: the library calls \<^verbatim>\<open>register_client\<close> for a new connection.
  \<^item> \<open>Message w loaded\<close>: the next message of \<open>w\<close> reaches the \<^verbatim>\<open>async for\<close> loop
    (a message received before the connection closed is still handled after).
  \<^item> \<open>Wake w\<close>: the sleep of \<open>w\<close>'s streaming loop is over.
  \<^item> \<open>PeerClose w\<close>: the connection of \<open>w\<close> closes.
  \<^item> \<open>HandlerEnd w\<close>: the \<^verbatim>\<open>async for\<close> loop of \<open>w\<close> finds the connection closed.
  \<^item> \<open>Tick\<close>: one pass of the statistics loop.
  An event that cannot happen in a state leaves it as it is.
\<close>

datatype event =
    Connect ws
  | Message ws "py_error + json"
  | Wake ws
  | PeerClose ws
  | HandlerEnd ws
  | Tick

fun step :: "env \<Rightarrow> event \<Rightarrow> state \<Rightarrow> state" where
  "step e (Connect w) s = (if task s w = NoTask then register_enter e w s else s)"
| "step e (Message w loaded) s =
     (if task s w = Idle
      then after_handling w (handle_client_message e w loaded s) else s)"
| "step e (Wake w) s =
     (case task s w of
        Streaming source frequency \<Rightarrow> after_handling w (resume_streaming e w source frequency s)
      | NoTask \<Rightarrow> s
      | Idle \<Rightarrow> s
      | Finished x \<Rightarrow> s)"
| "step e (PeerClose w) s = s\<lparr>conn_open := (conn_open s)(w := False)\<rparr>"
| "step e (HandlerEnd w) s =
     (if task s w = Idle \<and> \<not> conn_open s w then register_finish None w s else s)"
| "step e Tick s = broadcast_tick e s"

text \<open>A run of the event loop: each event with the \<open>env\<close> of its moment.\<close>

fun run :: "(env \<times> event) list \<Rightarrow> state \<Rightarrow> state" where
  "run [] s = s"
| "run ((e, ev) # rest) s = run rest (step e ev s)"

subsection \<open>Notions used in the properties\<close>

text \<open>A message that asks for a subscription.\<close>

fun subscribe_request :: "py_error + json \<Rightarrow> bool" where
  "subscribe_request (Inr (JObj d)) = (dict_get d ''type'' JNull = JStr ''subscribe'')"
| "subscribe_request loaded = False"

text \<open>The data frames a connection has been sent.\<close>

definition data_frames :: "state \<Rightarrow> ws \<Rightarrow> out_msg list" where
  "data_frames s w = filter is_data (outbox s w)"

text \<open>Every generator of the dictionary has a field, as every constructed one has.\<close>

definition gens_ok :: "state \<Rightarrow> bool" where
  "gens_ok s = list_all (\<lambda>kg. base_values (snd kg) \<noteq> []) (data_generators s)"

text \<open>
  A state in which no generator is without fields, no handler is asleep in the streaming
  loop and no connection has been sent a data frame.
\<close>

definition quiet :: "state \<Rightarrow> bool" where
  "quiet s = (gens_ok s \<and> (\<forall>w a b. task s w \<noteq> Streaming a b) \<and> (\<forall>w. data_frames s w = []))"

text \<open>A sample moment, for evaluating the definitions on concrete inputs.\<close>

definition env0 :: env where
  "env0 = \<lparr>now_iso = ''2025-01-01T00:00:00'', now_secs = 0,
           rand = (\<lambda>i. 1), init_rand = (\<lambda>i. 1 / 2), gauss_z = (\<lambda>i. 0)\<rparr>"

text \<open>Sample runs: one client connected; two clients, the first one's connection lost;
  three connections of which the first has ended.\<close>

definition sample_connected :: state where
  "sample_connected = run [(env0, Connect 1)] (start_server StreamingServer_init)"

definition sample_two :: state where
  "sample_two = run [(env0, Connect 1), (env0, Connect 2), (env0, PeerClose 1)]
     (start_server StreamingServer_init)"

definition sample_reuse :: state where
  "sample_reuse =
     run [(env0, Connect 1), (env0, Connect 2), (env0, PeerClose 1), (env0, HandlerEnd 1),
          (env0, Connect 3)] (start_server StreamingServer_init)"


section \<open>Properties of the data generator\<close>

subsection \<open>The field loop stops at its first statement\<close>

lemma update_fields_raises:
  "items \<noteq> [] \<Longrightarrow> update_fields e tr vol i items data bv = (Some AttributeError, data, bv)"
  by (cases items) (auto simp: random_sin_def)

lemma init_base_values_nonempty: "fst (init_base_values src u) \<noteq> []"
  by (simp add: init_base_values_def)

lemma base_values_init: "base_values (DataGenerator_init src u) = fst (init_base_values src u)"
  by (simp add: DataGenerator_init_def split: prod.splits)

lemma generate_data_point_nonempty:
  "base_values g \<noteq> [] \<Longrightarrow>
   generate_data_point e g = (Inl AttributeError, g\<lparr>trend := step_trend (trend g) (rand e 0)\<rparr>)"
  by (simp add: generate_data_point_def update_fields_raises)

lemma generate_many_nonempty:
  "base_values g \<noteq> [] \<Longrightarrow> base_values (generate_many es g) \<noteq> []"
proof (induction es arbitrary: g)
  case Nil
  then show ?case by simp
next
  case (Cons e es)
  from Cons.prems have "base_values (snd (generate_data_point e g)) \<noteq> []"
    by (simp add: generate_data_point_nonempty)
  from Cons.IH [OF this] show ?case by simp
qed

text \<open>
  C1. The claim: one generation step computes
  \<open>new = base * (1 + trend + seasonal + noise)\<close> with \<open>seasonal = 0.1 * sin (now / 3600)\<close>, and
  \<^verbatim>\<open>generate_data_point\<close> never raises. The code asks the module \<^verbatim>\<open>random\<close> for the sine,
  which it does not have: on every generator a constructor builds, after any number of
  earlier calls and whatever the clock and the entropy are, the call raises
  \<^verbatim>\<open>AttributeError\<close> at the first field.
\<close>

theorem generate_data_point_raises_AttributeError:
  "fst (generate_data_point e (generate_many es (DataGenerator_init src u))) = Inl AttributeError"
  by (simp add: generate_data_point_nonempty generate_many_nonempty base_values_init
      init_base_values_nonempty)

subsection \<open>Rounding to two decimals\<close>

lemma floor_le_round_half_even: "\<lfloor>x\<rfloor> \<le> round_half_even x"
  by (simp add: round_half_even_def Let_def)

lemma round_half_even_le: "x \<le> of_int h \<Longrightarrow> round_half_even x \<le> h"
proof -
  assume h: "x \<le> of_int h"
  then have fl: "\<lfloor>x\<rfloor> \<le> h" by (simp add: floor_le_iff)
  show ?thesis
  proof (cases "\<lfloor>x\<rfloor> = h")
    case True
    with h have "x = of_int \<lfloor>x\<rfloor>" by linarith
    then show ?thesis using True by (simp add: round_half_even_def Let_def)
  next
    case False
    with fl have "\<lfloor>x\<rfloor> + 1 \<le> h" by simp
    then show ?thesis using fl by (simp add: round_half_even_def Let_def)
  qed
qed

lemma round_half_even_ge: "of_int l \<le> x \<Longrightarrow> l \<le> round_half_even x"
proof -
  assume "of_int l \<le> x"
  then have "l \<le> \<lfloor>x\<rfloor>" by (simp add: le_floor_iff)
  with floor_le_round_half_even [of x] show ?thesis by linarith
qed

lemma round2_ge: "of_int l / 100 \<le> x \<Longrightarrow> of_int l / 100 \<le> round2 x"
  using round_half_even_ge [of l "x * 100"]
  by (simp add: round2_def field_simps)

lemma round2_le: "x \<le> of_int h / 100 \<Longrightarrow> round2 x \<le> of_int h / 100"
  using round_half_even_le [of "x * 100" h]
  by (simp add: round2_def field_simps)

lemma round2_nonneg: "0 \<le> x \<Longrightarrow> 0 \<le> round2 x"
  using round2_ge [of 0 x] by simp

lemma round2_range_percent: "0 \<le> x \<Longrightarrow> x \<le> 100 \<Longrightarrow> 0 \<le> round2 x \<and> round2 x \<le> 100"
  using round2_ge [of 0 x] round2_le [of x 10000] by simp

lemma round2_range_temperature: "-50 \<le> x \<Longrightarrow> x \<le> 60 \<Longrightarrow> -50 \<le> round2 x \<and> round2 x \<le> 60"
  using round2_ge [of "-5000" x] round2_le [of x 6000] by simp

subsection \<open>The bounds of a field update\<close>

lemma clamp_price:
  "clamp_value ''price'' b raw = (if raw < 0 then b * 0.1 else raw)"
  by (simp add: clamp_value_def)

lemma clamp_percent:
  "key = ''humidity'' \<or> key = ''dominance'' \<Longrightarrow> clamp_value key b raw = max 0 (min 100 raw)"
  by (auto simp: clamp_value_def)

lemma clamp_temperature:
  "clamp_value ''temperature'' b raw = max (-50) (min 60 raw)"
  by (auto simp: clamp_value_def)

lemma clamp_other:
  "key \<noteq> ''price'' \<Longrightarrow> key \<noteq> ''humidity'' \<Longrightarrow> key \<noteq> ''dominance'' \<Longrightarrow>
   key \<noteq> ''temperature'' \<Longrightarrow> clamp_value key b raw = raw"
  by (simp add: clamp_value_def)

lemma clamp_price_nonneg: "0 \<le> b \<Longrightarrow> 0 \<le> clamp_value ''price'' b raw"
  by (simp add: clamp_price)

lemma update_field_eq:
  "update_field key b tr s n =
     (round2 (clamp_value key b (raw_value b tr s n)), clamp_value key b (raw_value b tr s n))"
  by (simp add: update_field_def Let_def)

lemma price_many_nonneg:
  "0 \<le> b \<Longrightarrow>
   (\<forall>x \<in> set (fst (update_field_many ''price'' b xs)). 0 \<le> x) \<and>
   0 \<le> snd (update_field_many ''price'' b xs)"
proof (induction xs arbitrary: b)
  case Nil
  then show ?case by simp
next
  case (Cons t xs)
  obtain tr s n where t: "t = (tr, s, n)" by (cases t)
  let ?new = "clamp_value ''price'' b (raw_value b tr s n)"
  have new: "0 \<le> ?new" using Cons.prems by (rule clamp_price_nonneg)
  from Cons.IH [OF new] round2_nonneg [OF new] show ?case
    by (cases "update_field_many ''price'' ?new xs") (simp add: t update_field_eq)
qed

lemma init_price_positive:
  "0 \<le> u 0 \<Longrightarrow> u 0 \<le> 1 \<Longrightarrow> (''price'', p) \<in> set (fst (init_base_values src u)) \<Longrightarrow> 0 < p"
  by (auto simp: init_base_values_def uniform_def split: if_splits)

text \<open>
  C2. Every field update follows the bounds policy: a \<open>price\<close> that would go negative
  becomes a tenth of the prior value; \<open>humidity\<close> and \<open>dominance\<close> are brought into
  \<open>[0, 100]\<close> and \<open>temperature\<close> into \<open>[-50, 60]\<close>; every other field keeps the computed
  value. So the emitted and the stored \<open>temperature\<close> lie in \<open>[-50, 60]\<close>, those of
  \<open>humidity\<close> and \<open>dominance\<close> in \<open>[0, 100]\<close>, and a \<open>price\<close> whose prior value is not
  negative is not negative: starting from the price a constructor draws, no update in
  any series of updates emits a negative price.
\<close>

theorem clamp_policy:
  "update_field key b tr s n = (out, new) \<Longrightarrow>
   (key = ''price'' \<longrightarrow>
      new = (if raw_value b tr s n < 0 then b * 0.1 else raw_value b tr s n) \<and>
      (0 \<le> b \<longrightarrow> 0 \<le> new \<and> 0 \<le> out)) \<and>
   (key = ''humidity'' \<or> key = ''dominance'' \<longrightarrow>
      new = max 0 (min 100 (raw_value b tr s n)) \<and>
      0 \<le> new \<and> new \<le> 100 \<and> 0 \<le> out \<and> out \<le> 100) \<and>
   (key = ''temperature'' \<longrightarrow>
      new = max (-50) (min 60 (raw_value b tr s n)) \<and>
      -50 \<le> new \<and> new \<le> 60 \<and> -50 \<le> out \<and> out \<le> 60) \<and>
   (key \<noteq> ''price'' \<and> key \<noteq> ''humidity'' \<and> key \<noteq> ''dominance'' \<and> key \<noteq> ''temperature'' \<longrightarrow>
      new = raw_value b tr s n) \<and>
   ((\<forall>i. 0 \<le> u i \<and> u i \<le> 1) \<and> (''price'', p) \<in> set (base_values (DataGenerator_init src u)) \<longrightarrow>
      (\<forall>x \<in> set (fst (update_field_many ''price'' p calls)). 0 \<le> x))"
proof -
  assume a: "update_field key b tr s n = (out, new)"
  let ?raw = "raw_value b tr s n"
  from a have new: "new = clamp_value key b ?raw" and out: "out = round2 new"
    by (auto simp: update_field_eq)
  have price: "key = ''price'' \<longrightarrow>
      new = (if ?raw < 0 then b * 0.1 else ?raw) \<and> (0 \<le> b \<longrightarrow> 0 \<le> new \<and> 0 \<le> out)"
    using clamp_price_nonneg [of b ?raw] round2_nonneg [of new]
    by (auto simp: new out clamp_price)
  have percent: "key = ''humidity'' \<or> key = ''dominance'' \<longrightarrow>
      new = max 0 (min 100 ?raw) \<and> 0 \<le> new \<and> new \<le> 100 \<and> 0 \<le> out \<and> out \<le> 100"
  proof
    assume k: "key = ''humidity'' \<or> key = ''dominance''"
    then have n: "new = max 0 (min 100 ?raw)" by (simp add: new clamp_percent)
    then have "0 \<le> new" "new \<le> 100" by simp_all
    with n round2_range_percent [of new] show
      "new = max 0 (min 100 ?raw) \<and> 0 \<le> new \<and> new \<le> 100 \<and> 0 \<le> out \<and> out \<le> 100"
      by (simp add: out)
  qed
  have temperature: "key = ''temperature'' \<longrightarrow>
      new = max (-50) (min 60 ?raw) \<and> -50 \<le> new \<and> new \<le> 60 \<and> -50 \<le> out \<and> out \<le> 60"
  proof
    assume k: "key = ''temperature''"
    then have n: "new = max (-50) (min 60 ?raw)" by (simp add: new clamp_temperature)
    then have "-50 \<le> new" "new \<le> 60" by simp_all
    with n round2_range_temperature [of new] show
      "new = max (-50) (min 60 ?raw) \<and> -50 \<le> new \<and> new \<le> 60 \<and> -50 \<le> out \<and> out \<le> 60"
      by (simp add: out)
  qed
  have other: "key \<noteq> ''price'' \<and> key \<noteq> ''humidity'' \<and> key \<noteq> ''dominance'' \<and>
      key \<noteq> ''temperature'' \<longrightarrow> new = ?raw"
    by (simp add: new clamp_other)
  have series: "(\<forall>i. 0 \<le> u i \<and> u i \<le> 1) \<and>
      (''price'', p) \<in> set (base_values (DataGenerator_init src u)) \<longrightarrow>
      (\<forall>x \<in> set (fst (update_field_many ''price'' p calls)). 0 \<le> x)"
  proof
    assume h: "(\<forall>i. 0 \<le> u i \<and> u i \<le> 1) \<and>
      (''price'', p) \<in> set (base_values (DataGenerator_init src u))"
    then have "0 < p" using init_price_positive [of u p src] by (simp add: base_values_init)
    then have "0 \<le> p" by simp
    then show "\<forall>x \<in> set (fst (update_field_many ''price'' p calls)). 0 \<le> x"
      using price_many_nonneg by blast
  qed
  from price percent temperature other series show ?thesis by blast
qed

lemma update_field_temperature_sample: "update_field ''temperature'' 20 0 0 5 = (60, 60)"
  by (simp add: update_field_def clamp_value_def raw_value_def round2_def round_half_even_def Let_def)

lemma update_field_price_sample: "update_field ''price'' 100 0 0 (-2) = (10, 10)"
  by (simp add: update_field_def clamp_value_def raw_value_def round2_def round_half_even_def Let_def)

lemma update_field_humidity_sample: "update_field ''humidity'' 50 0 0 (-3) = (0, 0)"
  by (simp add: update_field_def clamp_value_def raw_value_def round2_def round_half_even_def Let_def)

lemma update_field_volume_sample: "update_field ''volume'' 1 0 0 (1 / 1000) = (1, 1001 / 1000)"
  by (simp add: update_field_def clamp_value_def raw_value_def round2_def round_half_even_def Let_def)

lemma base_values_stock_sample:
  "base_values (DataGenerator_init (JStr ''stock'') (\<lambda>i. 1 / 2)) =
     [(''price'', 100), (''volume'', 1000000), (''market_cap'', 1000000000)]"
  by (simp add: DataGenerator_init_def init_base_values_def uniform_def)

lemma update_field_many_price_sample:
  "update_field_many ''price'' 100 [(0, 0, -2), (0, 0, 1 / 1000)] = ([10, 1001 / 100], 1001 / 100)"
  by (simp add: update_field_def clamp_value_def raw_value_def round2_def round_half_even_def Let_def)

theorem clamp_policy_witness:
  "update_field ''temperature'' 20 0 0 5 = (60, 60) \<and>
   update_field ''humidity'' 50 0 0 (-3) = (0, 0) \<and>
   update_field ''price'' 100 0 0 (-2) = (10, 10) \<and>
   raw_value 100 0 0 (-2) = -100 \<and>
   update_field ''volume'' 1 0 0 (1 / 1000) = (1, raw_value 1 0 0 (1 / 1000)) \<and>
   (''price'', 100) \<in> set (base_values (DataGenerator_init (JStr ''stock'') (\<lambda>i. 1 / 2))) \<and>
   fst (update_field_many ''price'' 100 [(0, 0, -2), (0, 0, 1 / 1000)]) = [10, 1001 / 100] \<and>
   list_all (\<lambda>x. 0 \<le> x) (fst (update_field_many ''price'' 100 [(0, 0, -2), (0, 0, 1 / 1000)]))"
  using
    clamp_policy [OF update_field_temperature_sample, of "\<lambda>i. 1 / 2" 100 "JStr ''stock''"
      "[(0, 0, -2), (0, 0, 1 / 1000)]"]
    clamp_policy [OF update_field_humidity_sample, of "\<lambda>i. 1 / 2" 100 "JStr ''stock''" "[]"]
    clamp_policy [OF update_field_price_sample, of "\<lambda>i. 1 / 2" 100 "JStr ''stock''" "[]"]
    clamp_policy [OF update_field_volume_sample, of "\<lambda>i. 1 / 2" 100 "JStr ''stock''" "[]"]
  by (simp add: update_field_temperature_sample update_field_humidity_sample
      update_field_price_sample update_field_volume_sample base_values_stock_sample
      update_field_many_price_sample raw_value_def del: update_field_many.simps)





subsection \<open>The trend\<close>

lemma step_trend_band: "-0.005 \<le> step_trend t r \<and> step_trend t r \<le> 0.005"
  unfolding step_trend_def by (simp only: max_def min_def split: if_splits) simp

lemma trend_generate: "trend (snd (generate_data_point e g)) = step_trend (trend g) (rand e 0)"
  by (cases "update_fields e (step_trend (trend g) (rand e 0)) (volatility g) 0
               (base_values g) [] (base_values g)")
     (simp add: generate_data_point_def Let_def split: option.splits)

lemma uniform_range:
  "0 \<le> r \<Longrightarrow> r \<le> 1 \<Longrightarrow> a \<le> b \<Longrightarrow> a \<le> uniform a b r \<and> uniform a b r \<le> b"
proof -
  assume r: "0 \<le> r" "r \<le> 1" and ab: "a \<le> b"
  have "0 \<le> (b - a) * r" using r ab by simp
  moreover have "(b - a) * r \<le> (b - a) * 1" using r ab by (intro mult_left_mono) simp_all
  ultimately show ?thesis by (simp add: uniform_def)
qed

lemma trend_init_band:
  "0 \<le> u (snd (init_base_values src u)) \<Longrightarrow> u (snd (init_base_values src u)) \<le> 1 \<Longrightarrow>
   -0.001 \<le> trend (DataGenerator_init src u) \<and> trend (DataGenerator_init src u) \<le> 0.001"
proof -
  assume a: "0 \<le> u (snd (init_base_values src u))" and b: "u (snd (init_base_values src u)) \<le> 1"
  have t: "trend (DataGenerator_init src u) =
      uniform (-0.001) 0.001 (u (snd (init_base_values src u)))"
    by (simp add: DataGenerator_init_def split: prod.splits)
  show ?thesis using uniform_range [OF a b, of "-0.001" "0.001"] by (simp add: t)
qed

lemma generate_many_band:
  "-0.005 \<le> trend g \<Longrightarrow> trend g \<le> 0.005 \<Longrightarrow>
   -0.005 \<le> trend (generate_many es g) \<and> trend (generate_many es g) \<le> 0.005"
proof (induction es arbitrary: g)
  case Nil
  then show ?case by simp
next
  case (Cons e es)
  show ?case using Cons.IH [of "snd (generate_data_point e g)"] step_trend_band
    by (simp add: trend_generate)
qed

text \<open>
  C4. The trend a constructor draws lies in the band \<open>[-0.005, 0.005]\<close> (it is drawn from
  \<open>[-0.001, 0.001]\<close>), and so does the trend after any number of generation calls,
  whatever they draw and although each of them raises: a call adds a draw from
  \<open>[-0.0001, 0.0001]\<close> and brings the sum back into the band.
\<close>

theorem trend_stays_in_band:
  "\<forall>i. 0 \<le> u i \<and> u i \<le> 1 \<Longrightarrow>
   -0.005 \<le> trend (DataGenerator_init src u) \<and> trend (DataGenerator_init src u) \<le> 0.005 \<and>
   -0.005 \<le> trend (generate_many es (DataGenerator_init src u)) \<and>
   trend (generate_many es (DataGenerator_init src u)) \<le> 0.005 \<and>
   trend (snd (generate_data_point e g)) =
     max (-0.005) (min 0.005 (trend g + uniform (-0.0001) 0.0001 (rand e 0))) \<and>
   (0 \<le> rand e 0 \<and> rand e 0 \<le> 1 \<longrightarrow>
      -0.0001 \<le> uniform (-0.0001) 0.0001 (rand e 0) \<and>
      uniform (-0.0001) 0.0001 (rand e 0) \<le> 0.0001)"
proof -
  assume u: "\<forall>i. 0 \<le> u i \<and> u i \<le> 1"
  then have i: "-0.001 \<le> trend (DataGenerator_init src u) \<and>
      trend (DataGenerator_init src u) \<le> 0.001"
    using trend_init_band [of u src] by simp
  then have b: "-0.005 \<le> trend (DataGenerator_init src u)"
      "trend (DataGenerator_init src u) \<le> 0.005"
    by simp_all
  have m: "-0.005 \<le> trend (generate_many es (DataGenerator_init src u)) \<and>
      trend (generate_many es (DataGenerator_init src u)) \<le> 0.005"
    using b by (rule generate_many_band)
  have s: "trend (snd (generate_data_point e g)) =
      max (-0.005) (min 0.005 (trend g + uniform (-0.0001) 0.0001 (rand e 0)))"
    by (simp add: trend_generate step_trend_def)
  have d: "0 \<le> rand e 0 \<and> rand e 0 \<le> 1 \<longrightarrow>
      -0.0001 \<le> uniform (-0.0001) 0.0001 (rand e 0) \<and>
      uniform (-0.0001) 0.0001 (rand e 0) \<le> 0.0001"
    using uniform_range [of "rand e 0" "-0.0001" "0.0001"] by simp
  from b m s d show ?thesis by blast
qed

lemma trend_sample:
  "trend (generate_many [env0, env0] (DataGenerator_init (JStr ''stock'') (\<lambda>i. 1 / 2))) = 1 / 5000"
  by (simp add: trend_generate step_trend_def uniform_def env0_def DataGenerator_init_def
      init_base_values_def)

theorem trend_stays_in_band_witness:
  "(\<forall>i::nat. (0::real) \<le> 1 / 2 \<and> (1::real) / 2 \<le> 1) \<and>
   trend (DataGenerator_init (JStr ''stock'') (\<lambda>i. 1 / 2)) = 0 \<and>
   trend (generate_many [env0, env0] (DataGenerator_init (JStr ''stock'') (\<lambda>i. 1 / 2))) = 1 / 5000 \<and>
   0 \<le> rand env0 0 \<and> rand env0 0 \<le> 1 \<and>
   uniform (-0.0001) 0.0001 (rand env0 0) = 1 / 10000 \<and>
   -0.005 \<le> trend (generate_many [env0, env0] (DataGenerator_init (JStr ''stock'') (\<lambda>i. 1 / 2))) \<and>
   trend (generate_many [env0, env0] (DataGenerator_init (JStr ''stock'') (\<lambda>i. 1 / 2))) \<le> 0.005"
proof -
  have h: "\<forall>i::nat. (0::real) \<le> (\<lambda>i. 1 / 2) i \<and> (\<lambda>i. 1 / 2) i \<le> (1::real)" by simp
  have t0: "trend (DataGenerator_init (JStr ''stock'') (\<lambda>i. 1 / 2)) = 0"
    by (simp add: DataGenerator_init_def init_base_values_def uniform_def)
  have d: "uniform (-0.0001) 0.0001 (rand env0 0) = 1 / 10000"
    by (simp add: uniform_def env0_def)
  have r: "0 \<le> rand env0 0 \<and> rand env0 0 \<le> 1" by (simp add: env0_def)
  from trend_stays_in_band [OF h, of "JStr ''stock''" "[env0, env0]" env0
      "DataGenerator_init (JStr ''stock'') (\<lambda>i. 1 / 2)"] t0 d r trend_sample
  show ?thesis by simp
qed

section \<open>Properties of the server\<close>

subsection \<open>What a handler leaves untouched\<close>

lemma send_open: "conn_open s w \<Longrightarrow> send w m s = Some (s\<lparr>outbox := (outbox s)(w := outbox s w @ [m])\<rparr>)"
  by (simp add: send_def)

lemma send_closed: "\<not> conn_open s w \<Longrightarrow> send w m s = None"
  by (simp add: send_def)

lemma send_Some:
  "send w m s = Some s' \<Longrightarrow> s' = s\<lparr>outbox := (outbox s)(w := outbox s w @ [m])\<rparr>"
  by (auto simp: send_def split: if_splits)

lemma stream_once_keeps:
  "stream_once e w src f s = (oc, s') \<Longrightarrow>
   clients s' = clients s \<and> conn_open s' = conn_open s \<and> task s' = task s \<and>
   running s' = running s \<and> client_id s' = client_id s \<and> log s' = log s \<and>
   (\<forall>w'. w' \<noteq> w \<longrightarrow> outbox s' w' = outbox s w')"
  by (auto simp: stream_once_def send_def Let_def split: if_splits option.splits sum.splits prod.splits)

lemma start_streaming_keeps:
  "start_streaming e w src f s = (oc, s') \<Longrightarrow>
   clients s' = clients s \<and> conn_open s' = conn_open s \<and> task s' = task s \<and>
   running s' = running s \<and> client_id s' = client_id s \<and> log s' = log s \<and>
   (\<forall>w'. w' \<noteq> w \<longrightarrow> outbox s' w' = outbox s w')"
  by (auto simp: start_streaming_def send_def split: if_splits option.splits dest!: stream_once_keeps)

lemma handle_body_keeps:
  "handle_body e w data s = (oc, s') \<Longrightarrow>
   clients s' = clients s \<and> conn_open s' = conn_open s \<and> task s' = task s \<and>
   running s' = running s \<and> client_id s' = client_id s \<and> log s' = log s \<and>
   (\<forall>w'. w' \<noteq> w \<longrightarrow> outbox s' w' = outbox s w')"
  by (auto simp: handle_body_def send_or_raise_def send_def Let_def
      split: if_splits option.splits json.splits dest!: start_streaming_keeps)

lemma catch_all_keeps:
  "catch_all (oc0, s0) = (oc, s') \<Longrightarrow>
   clients s' = clients s0 \<and> conn_open s' = conn_open s0 \<and> task s' = task s0 \<and>
   running s' = running s0 \<and> client_id s' = client_id s0 \<and> outbox s' = outbox s0 \<and>
   data_generators s' = data_generators s0 \<and>
   (\<forall>a b. (oc = Suspended a b) = (oc0 = Suspended a b)) \<and> oc \<noteq> Raised err"
  by (auto simp: catch_all_def split: outcome.splits)

lemma handle_client_message_keeps:
  "handle_client_message e w loaded s = (oc, s') \<Longrightarrow>
   clients s' = clients s \<and> conn_open s' = conn_open s \<and> task s' = task s \<and>
   running s' = running s \<and> client_id s' = client_id s \<and>
   (\<forall>w'. w' \<noteq> w \<longrightarrow> outbox s' w' = outbox s w')"
proof -
  assume a: "handle_client_message e w loaded s = (oc, s')"
  show ?thesis
  proof (cases loaded)
    case (Inl err)
    with a show ?thesis
      by (auto simp: handle_client_message_def send_or_raise_def send_def catch_all_def
          split: if_splits)
  next
    case (Inr data)
    obtain oc0 s0 where b: "handle_body e w data s = (oc0, s0)" by (cases "handle_body e w data s")
    from a Inr b have "catch_all (oc0, s0) = (oc, s')" by (simp add: handle_client_message_def)
    from catch_all_keeps [OF this] handle_body_keeps [OF b] show ?thesis by simp
  qed
qed

subsection \<open>Generators with fields\<close>

lemma gens_ok_gen_update:
  "list_all (\<lambda>kg. base_values (snd kg) \<noteq> []) xs \<Longrightarrow> base_values g \<noteq> [] \<Longrightarrow>
   list_all (\<lambda>kg. base_values (snd kg) \<noteq> []) (gen_update k g xs)"
  by (induction xs) auto

lemma gens_ok_gen_lookup:
  "list_all (\<lambda>kg. base_values (snd kg) \<noteq> []) xs \<Longrightarrow> gen_lookup xs k = Some g \<Longrightarrow>
   base_values g \<noteq> []"
  by (induction xs) (auto split: if_splits)

lemma stream_once_gens_ok:
  "gens_ok s \<Longrightarrow> stream_once e w src f s = (oc, s') \<Longrightarrow>
   outbox s' = outbox s \<and> gens_ok s' \<and> (oc = Returned \<or> oc = Raised AttributeError \<or> oc = Raised KeyError)"
proof -
  assume ok: "gens_ok s" and a: "stream_once e w src f s = (oc, s')"
  show ?thesis
  proof (cases "w \<in> set (clients s)")
    case False
    with a ok show ?thesis by (simp add: stream_once_def)
  next
    case True
    show ?thesis
    proof (cases "gen_lookup (data_generators s) src")
      case None
      with a ok True show ?thesis by (auto simp: stream_once_def)
    next
      case (Some g)
      with ok have ne: "base_values g \<noteq> []" by (auto simp: gens_ok_def dest: gens_ok_gen_lookup)
      from a True Some have
        "s' = s\<lparr>data_generators := gen_update src (g\<lparr>trend := step_trend (trend g) (rand e 0)\<rparr>) (data_generators s)\<rparr>"
        and "oc = Raised AttributeError"
        by (auto simp: stream_once_def generate_data_point_nonempty [OF ne])
      with ok ne show ?thesis by (simp add: gens_ok_def gens_ok_gen_update)
    qed
  qed
qed




lemma catch_all_gens_ok: "gens_ok (snd (catch_all r)) = gens_ok (snd r)"
  by (cases r) (auto simp: catch_all_def gens_ok_def split: outcome.splits)

lemma handle_body_subscribe:
  "dict_get d ''type'' JNull = JStr ''subscribe'' \<Longrightarrow> hashable (dict_get d ''source'' (JStr ''stock'')) \<Longrightarrow>
   handle_body e w (JObj d) s =
     start_streaming e w (dict_get d ''source'' (JStr ''stock'')) (dict_get d ''frequency'' (JInt 500))
       (if gen_lookup (data_generators s) (dict_get d ''source'' (JStr ''stock'')) = None
        then s\<lparr>data_generators :=
                 gen_update (dict_get d ''source'' (JStr ''stock''))
                   (DataGenerator_init (dict_get d ''source'' (JStr ''stock'')) (init_rand e))
                   (data_generators s)\<rparr>
        else s)"
  by (simp add: handle_body_def Let_def)

lemma start_streaming_open:
  "conn_open s w \<Longrightarrow> gen_lookup (data_generators s) src \<noteq> None \<Longrightarrow>
   start_streaming e w src f s =
     stream_once e w src f (s\<lparr>outbox := (outbox s)(w := outbox s w @ [Subscribed src f (now_iso e)])\<rparr>)"
  by (auto simp: start_streaming_def send_def)


subsection \<open>Effects of the events on one connection\<close>

lemma handle_not_subscribe:
  "\<not> subscribe_request loaded \<Longrightarrow> handle_client_message e w loaded s = (oc, s') \<Longrightarrow>
   data_frames s' w = data_frames s w \<and> (\<forall>a b. oc \<noteq> Suspended a b) \<and>
   data_generators s' = data_generators s"
proof -
  assume n: "\<not> subscribe_request loaded" and a: "handle_client_message e w loaded s = (oc, s')"
  show ?thesis
  proof (cases loaded)
    case (Inl err)
    with a show ?thesis
      by (auto simp: handle_client_message_def send_or_raise_def send_def catch_all_def
          data_frames_def split: if_splits)
  next
    case (Inr data)
    show ?thesis
    proof (cases data)
      case (JObj d)
      with n Inr have "dict_get d ''type'' JNull \<noteq> JStr ''subscribe''" by simp
      with a Inr JObj show ?thesis
        by (auto simp: handle_client_message_def handle_body_def send_or_raise_def send_def
            catch_all_def data_frames_def Let_def split: if_splits)
    qed (use a Inr in \<open>auto simp: handle_client_message_def handle_body_def catch_all_def
        data_frames_def\<close>)
  qed
qed

lemma set_remove_cases:
  "set_remove x xs = Inl err \<Longrightarrow> err = KeyError \<and> x \<notin> set xs"
  "set_remove x xs = Inr ys \<Longrightarrow> ys = removeAll x xs \<and> x \<in> set xs"
  by (auto simp: set_remove_def split: if_splits)

lemma register_finish_effect:
  "outbox (register_finish exc w s) = outbox s \<and>
   data_generators (register_finish exc w s) = data_generators s \<and>
   conn_open (register_finish exc w s) = conn_open s \<and>
   running (register_finish exc w s) = running s \<and>
   (\<forall>w'. w' \<noteq> w \<longrightarrow> task (register_finish exc w s) w' = task s w') \<and>
   (\<exists>x. task (register_finish exc w s) w = Finished x) \<and>
   (clients (register_finish exc w s) = clients s \<or>
    clients (register_finish exc w s) = removeAll w (clients s))"
  by (auto simp: register_finish_def set_remove_def Let_def)

lemma register_enter_effect:
  "data_generators (register_enter e w s) = data_generators s \<and>
   conn_open (register_enter e w s) = conn_open s \<and>
   running (register_enter e w s) = running s \<and>
   (\<forall>w'. w' \<noteq> w \<longrightarrow> task (register_enter e w s) w' = task s w' \<and>
                     outbox (register_enter e w s) w' = outbox s w') \<and>
   (\<forall>a b. task (register_enter e w s) w \<noteq> Streaming a b) \<and>
   data_frames (register_enter e w s) w = data_frames s w"
  by (auto simp: register_enter_def register_finish_def set_remove_def set_add_def send_def
      data_frames_def Let_def)

lemma after_handling_effect:
  "outbox (after_handling w (oc, s)) = outbox s \<and>
   data_generators (after_handling w (oc, s)) = data_generators s \<and>
   conn_open (after_handling w (oc, s)) = conn_open s \<and>
   running (after_handling w (oc, s)) = running s \<and>
   (\<forall>w'. w' \<noteq> w \<longrightarrow> task (after_handling w (oc, s)) w' = task s w') \<and>
   ((\<forall>a b. oc \<noteq> Suspended a b) \<longrightarrow> (\<forall>a b. task (after_handling w (oc, s)) w \<noteq> Streaming a b))"
proof (cases oc)
  case (Raised err)
  with register_finish_effect [of "Some err" w s] show ?thesis
    by (auto simp: after_handling_def)
qed (auto simp: after_handling_def)

lemma send_all_keeps:
  "send_all m cs disc s = (disc', s') \<Longrightarrow>
   clients s' = clients s \<and> conn_open s' = conn_open s \<and> task s' = task s \<and>
   data_generators s' = data_generators s \<and> running s' = running s \<and>
   log s' = log s \<and> client_id s' = client_id s"
proof (induction cs arbitrary: disc s)
  case Nil
  then show ?case by simp
next
  case (Cons c cs)
  show ?case
  proof (cases "send c m s")
    case None
    with Cons.prems have "send_all m cs (set_add c disc) s = (disc', s')" by simp
    from Cons.IH [OF this] show ?thesis .
  next
    case (Some s1)
    with Cons.prems have r: "send_all m cs disc s1 = (disc', s')" by simp
    from Some have "s1 = s\<lparr>outbox := (outbox s)(c := outbox s c @ [m])\<rparr>" by (rule send_Some)
    with Cons.IH [OF r] show ?thesis by simp
  qed
qed

lemma send_all_effect:
  "distinct cs \<Longrightarrow> send_all m cs disc s = (disc', s') \<Longrightarrow>
   (\<forall>w. outbox s' w = (if w \<in> set cs \<and> conn_open s w then outbox s w @ [m] else outbox s w)) \<and>
   set disc' = set disc \<union> {c \<in> set cs. \<not> conn_open s c}"
proof (induction cs arbitrary: disc s)
  case Nil
  then show ?case by simp
next
  case (Cons c cs)
  from Cons.prems have d: "distinct cs" and c: "c \<notin> set cs" by simp_all
  show ?case
  proof (cases "conn_open s c")
    case False
    then have "send c m s = None" by (rule send_closed)
    with Cons.prems have "send_all m cs (set_add c disc) s = (disc', s')" by simp
    from Cons.IH [OF d this] False show ?thesis by (auto simp: set_add_def)
  next
    case True
    let ?s1 = "s\<lparr>outbox := (outbox s)(c := outbox s c @ [m])\<rparr>"
    from True have "send c m s = Some ?s1" by (rule send_open)
    with Cons.prems have "send_all m cs disc ?s1 = (disc', s')" by simp
    from Cons.IH [OF d this] True c show ?thesis by auto
  qed
qed

lemma send_all_data_frames:
  "\<not> is_data m \<Longrightarrow> send_all m cs disc s = (disc', s') \<Longrightarrow> data_frames s' w = data_frames s w"
proof (induction cs arbitrary: disc s)
  case Nil
  then show ?case by simp
next
  case (Cons c cs)
  show ?case
  proof (cases "send c m s")
    case None
    with Cons.prems have "send_all m cs (set_add c disc) s = (disc', s')" by simp
    from Cons.IH [OF Cons.prems(1) this] show ?thesis .
  next
    case (Some s1)
    with Cons.prems have r: "send_all m cs disc s1 = (disc', s')" by simp
    from Some have "s1 = s\<lparr>outbox := (outbox s)(c := outbox s c @ [m])\<rparr>" by (rule send_Some)
    then have "data_frames s1 w = data_frames s w" using Cons.prems(1) by (simp add: data_frames_def)
    with Cons.IH [OF Cons.prems(1) r] show ?thesis by simp
  qed
qed

lemma broadcast_tick_effect:
  "task (broadcast_tick e s) = task s \<and> data_frames (broadcast_tick e s) w = data_frames s w \<and>
   data_generators (broadcast_tick e s) = data_generators s \<and>
   conn_open (broadcast_tick e s) = conn_open s \<and> running (broadcast_tick e s) = running s"
proof (cases "running s \<and> clients s \<noteq> []")
  case False
  then show ?thesis by (auto simp: broadcast_tick_def)
next
  case True
  obtain disc s1 where r: "send_all (stats_msg e s) (clients s) [] s = (disc, s1)"
    by (cases "send_all (stats_msg e s) (clients s) [] s")
  have nd: "\<not> is_data (stats_msg e s)" by (simp add: stats_msg_def)
  from True r send_all_keeps [OF r] send_all_data_frames [OF nd r, of w] show ?thesis
    by (simp add: broadcast_tick_def data_frames_def)
qed

subsection \<open>What holds in every state the server reaches\<close>

text \<open>
  Every generator has a field, so every attempt to generate a data point raises; hence
  no handler ever sleeps in the streaming loop and no data frame is ever sent.
\<close>

lemma DataGenerator_init_nonempty: "base_values (DataGenerator_init src u) \<noteq> []"
  by (simp add: base_values_init init_base_values_nonempty)

lemma start_streaming_gens_ok:
  "gens_ok s \<Longrightarrow> start_streaming e w src f s = (oc, s') \<Longrightarrow>
   gens_ok s' \<and> (\<forall>a b. oc \<noteq> Suspended a b) \<and> data_frames s' w = data_frames s w \<and>
   (outbox s' w = outbox s w \<or> outbox s' w = outbox s w @ [Subscribed src f (now_iso e)])"
proof -
  assume ok: "gens_ok s" and a: "start_streaming e w src f s = (oc, s')"
  show ?thesis
  proof (cases "gen_lookup (data_generators s) src = None \<or> \<not> conn_open s w")
    case True
    with a ok show ?thesis by (auto simp: start_streaming_def send_def split: option.splits)
  next
    case False
    let ?s1 = "s\<lparr>outbox := (outbox s)(w := outbox s w @ [Subscribed src f (now_iso e)])\<rparr>"
    from False a have r: "stream_once e w src f ?s1 = (oc, s')"
      by (simp add: start_streaming_open)
    from ok have "gens_ok ?s1" by (simp add: gens_ok_def)
    from stream_once_gens_ok [OF this r] show ?thesis by (auto simp: data_frames_def)
  qed
qed

lemma handle_body_gens_ok:
  "gens_ok s \<Longrightarrow> handle_body e w data s = (oc, s') \<Longrightarrow>
   gens_ok s' \<and> (\<forall>a b. oc \<noteq> Suspended a b) \<and> data_frames s' w = data_frames s w"
proof -
  assume ok: "gens_ok s" and a: "handle_body e w data s = (oc, s')"
  show ?thesis
  proof (cases "\<exists>d. data = JObj d \<and> dict_get d ''type'' JNull = JStr ''subscribe'' \<and>
      hashable (dict_get d ''source'' (JStr ''stock''))")
    case True
    then obtain d where d: "data = JObj d" "dict_get d ''type'' JNull = JStr ''subscribe''"
      "hashable (dict_get d ''source'' (JStr ''stock''))" by blast
    let ?src = "dict_get d ''source'' (JStr ''stock'')"
    let ?s1 = "if gen_lookup (data_generators s) ?src = None
        then s\<lparr>data_generators :=
                 gen_update ?src (DataGenerator_init ?src (init_rand e)) (data_generators s)\<rparr>
        else s"
    have ok1: "gens_ok ?s1" using ok
      by (simp add: gens_ok_def gens_ok_gen_update DataGenerator_init_nonempty)
    have df: "data_frames ?s1 w = data_frames s w" by (simp add: data_frames_def)
    from a d have "start_streaming e w ?src (dict_get d ''frequency'' (JInt 500)) ?s1 = (oc, s')"
      by (simp add: handle_body_subscribe)
    from start_streaming_gens_ok [OF ok1 this] df show ?thesis by simp
  next
    case False
    with a ok show ?thesis
      by (cases data)
         (auto simp: handle_body_def send_or_raise_def send_def gens_ok_def data_frames_def Let_def
           split: if_splits)
  qed
qed

lemma handle_client_message_gens_ok:
  "gens_ok s \<Longrightarrow> handle_client_message e w loaded s = (oc, s') \<Longrightarrow>
   gens_ok s' \<and> (\<forall>a b. oc \<noteq> Suspended a b) \<and> data_frames s' w = data_frames s w"
proof -
  assume ok: "gens_ok s" and a: "handle_client_message e w loaded s = (oc, s')"
  show ?thesis
  proof (cases loaded)
    case (Inl err)
    with a ok show ?thesis
      by (auto simp: handle_client_message_def send_or_raise_def send_def catch_all_def
          gens_ok_def data_frames_def split: if_splits)
  next
    case (Inr data)
    obtain oc0 s0 where b: "handle_body e w data s = (oc0, s0)" by (cases "handle_body e w data s")
    from a Inr b have r: "catch_all (oc0, s0) = (oc, s')" by (simp add: handle_client_message_def)
    from handle_body_gens_ok [OF ok b] catch_all_keeps [OF r] show ?thesis
      by (simp add: gens_ok_def data_frames_def)
  qed
qed

lemma step_quiet: "quiet s \<Longrightarrow> quiet (step e ev s)"
proof -
  assume q: "quiet s"
  then have ok: "gens_ok s" and t: "\<forall>w a b. task s w \<noteq> Streaming a b"
    and nd: "\<forall>w. data_frames s w = []" by (simp_all add: quiet_def)
  show ?thesis
  proof (cases ev)
    case (Connect w')
    have "\<forall>w. data_frames (register_enter e w' s) w = data_frames s w"
      using register_enter_effect [of e w' s] by (auto simp: data_frames_def)
    moreover have "\<forall>w a b. task (register_enter e w' s) w \<noteq> Streaming a b"
      using register_enter_effect [of e w' s] t by metis
    ultimately show ?thesis using q Connect register_enter_effect [of e w' s]
      by (simp add: quiet_def gens_ok_def)
  next
    case (Message w' loaded)
    show ?thesis
    proof (cases "task s w' = Idle")
      case False
      with Message q show ?thesis by simp
    next
      case True
      obtain oc s1 where h: "handle_client_message e w' loaded s = (oc, s1)"
        by (cases "handle_client_message e w' loaded s")
      note g = handle_client_message_gens_ok [OF ok h]
        and k = handle_client_message_keeps [OF h] and ah = after_handling_effect [of w' oc s1]
      have "\<forall>w. data_frames s1 w = []"
      proof
        fix w show "data_frames s1 w = []" using g k nd by (cases "w = w'") (simp_all add: data_frames_def)
      qed
      moreover have "\<forall>w a b. task (after_handling w' (oc, s1)) w \<noteq> Streaming a b"
      proof
        fix w show "\<forall>a b. task (after_handling w' (oc, s1)) w \<noteq> Streaming a b"
          using g k ah t by (cases "w = w'") simp_all
      qed
      ultimately show ?thesis using Message True h g ah
        by (simp add: quiet_def gens_ok_def data_frames_def)
    qed
  next
    case (Wake w')
    from t have "step e (Wake w') s = s" by (cases "task s w'") simp_all
    with Wake q show ?thesis by simp
  next
    case (PeerClose w')
    with q show ?thesis by (simp add: quiet_def gens_ok_def data_frames_def)
  next
    case (HandlerEnd w')
    have "\<forall>w a b. task (register_finish None w' s) w \<noteq> Streaming a b"
    proof
      fix w show "\<forall>a b. task (register_finish None w' s) w \<noteq> Streaming a b"
        using register_finish_effect [of None w' s] t by (cases "w = w'") auto
    qed
    with HandlerEnd q register_finish_effect [of None w' s] show ?thesis
      by (simp add: quiet_def gens_ok_def data_frames_def)
  next
    case Tick
    with q broadcast_tick_effect [of e s] show ?thesis
      by (simp add: quiet_def gens_ok_def)
  qed
qed

lemma run_quiet: "quiet s \<Longrightarrow> quiet (run evs s)"
proof (induction evs arbitrary: s)
  case Nil
  then show ?case by simp
next
  case (Cons x evs)
  obtain e ev where x: "x = (e, ev)" by (cases x)
  from Cons.IH [OF step_quiet [OF Cons.prems, of e ev]] show ?case by (simp add: x)
qed

lemma init_quiet: "quiet (start_server StreamingServer_init)"
  by (simp add: quiet_def gens_ok_def start_server_def StreamingServer_init_def data_frames_def)

lemma reachable_quiet: "quiet (run evs (start_server StreamingServer_init))"
  using init_quiet by (rule run_quiet)

text \<open>The list that stands for \<^verbatim>\<open>self.clients\<close> never repeats an element.\<close>

lemma step_distinct: "distinct (clients s) \<Longrightarrow> distinct (clients (step e ev s))"
proof (cases ev)
  case (Connect w')
  assume "distinct (clients s)"
  with Connect show ?thesis
    by (auto simp: register_enter_def register_finish_def set_add_def set_remove_def send_def
        Let_def distinct_removeAll)
next
  case (Message w' loaded)
  assume d: "distinct (clients s)"
  obtain oc s1 where h: "handle_client_message e w' loaded s = (oc, s1)"
    by (cases "handle_client_message e w' loaded s")
  from handle_client_message_keeps [OF h] d have d1: "distinct (clients s1)" by simp
  have "distinct (clients (after_handling w' (oc, s1)))"
    using d1 by (cases oc) (auto simp: after_handling_def register_finish_def set_remove_def
        Let_def distinct_removeAll)
  with Message h d show ?thesis by simp
next
  case (Wake w')
  assume d: "distinct (clients s)"
  show ?thesis
  proof (cases "task s w'")
    case (Streaming a b)
    obtain oc0 s0 where so: "stream_once e w' a b s = (oc0, s0)"
      by (cases "stream_once e w' a b s")
    obtain oc s1 where r: "catch_all (oc0, s0) = (oc, s1)" by (cases "catch_all (oc0, s0)")
    from stream_once_keeps [OF so] catch_all_keeps [OF r] d have d1: "distinct (clients s1)" by simp
    have "distinct (clients (after_handling w' (oc, s1)))"
      using d1 by (cases oc) (auto simp: after_handling_def register_finish_def set_remove_def
          Let_def distinct_removeAll)
    with Wake Streaming so r show ?thesis by (simp add: resume_streaming_def)
  qed (use Wake d in auto)
next
  case (PeerClose w')
  assume "distinct (clients s)"
  with PeerClose show ?thesis by simp
next
  case (HandlerEnd w')
  assume "distinct (clients s)"
  with HandlerEnd show ?thesis
    by (auto simp: register_finish_def set_remove_def Let_def distinct_removeAll)
next
  case Tick
  assume d: "distinct (clients s)"
  obtain disc s1 where r: "send_all (stats_msg e s) (clients s) [] s = (disc, s1)"
    by (cases "send_all (stats_msg e s) (clients s) [] s")
  from send_all_keeps [OF r] d Tick r show ?thesis
    by (simp add: broadcast_tick_def set_minus_def)
qed

lemma reachable_distinct: "distinct (clients (run evs (start_server StreamingServer_init)))"
proof -
  have "distinct (clients s) \<Longrightarrow> distinct (clients (run evs s))" for s
  proof (induction evs arbitrary: s)
    case Nil
    then show ?case by simp
  next
    case (Cons x evs)
    obtain e ev where x: "x = (e, ev)" by (cases x)
    from Cons.IH [OF step_distinct [OF Cons.prems, of e ev]] show ?case by (simp add: x)
  qed
  then show ?thesis by (simp add: start_server_def StreamingServer_init_def)
qed

subsection \<open>Sample runs, evaluated\<close>

lemmas eval_defs = start_server_def StreamingServer_init_def register_enter_def set_add_def
  send_def register_finish_def set_remove_def Let_def env0_def str_nat.simps digit_def
  available_sources_def

lemma sample_connected_facts:
  "clients sample_connected = [1] \<and> task sample_connected 1 = Idle \<and>
   conn_open sample_connected 1 \<and> data_generators sample_connected = [] \<and>
   log sample_connected = [] \<and> running sample_connected \<and>
   outbox sample_connected 1 =
     [Welcome ''client_1'' ''2025-01-01T00:00:00'' available_sources ''1.0.0'' 0 1]"
  by (simp add: sample_connected_def eval_defs)

lemma sample_two_facts:
  "clients sample_two = [1, 2] \<and> \<not> conn_open sample_two 1 \<and> conn_open sample_two 2 \<and>
   running sample_two \<and> data_generators sample_two = [] \<and>
   outbox sample_two 1 =
     [Welcome ''client_1'' ''2025-01-01T00:00:00'' available_sources ''1.0.0'' 0 1] \<and>
   outbox sample_two 2 =
     [Welcome ''client_2'' ''2025-01-01T00:00:00'' available_sources ''1.0.0'' 0 2]"
  by (simp add: sample_two_def eval_defs)

lemma sample_reuse_facts:
  "clients sample_reuse = [2, 3] \<and> task sample_reuse 2 = Idle \<and> task sample_reuse 3 = Idle \<and>
   client_id sample_reuse 2 = ''client_2'' \<and> client_id sample_reuse 3 = ''client_2''"
  by (simp add: sample_reuse_def eval_defs)

subsection \<open>Payloads the handler cannot read\<close>

text \<open>
  C6, as the specification states it: every payload that fails to parse as the expected
  structure, a valid JSON document that is not an object included, is answered with an
  \<^verbatim>\<open>error\<close> frame. It is not: the connected client that sends the JSON array \<^verbatim>\<open>[]\<close> is
  sent nothing; the \<^verbatim>\<open>AttributeError\<close> of \<^verbatim>\<open>data.get\<close> is caught and printed.
\<close>

theorem non_object_payload_gets_no_reply_counterexample:
  "conn_open sample_connected 1 \<and> task sample_connected 1 = Idle \<and>
   outbox sample_connected 1 =
     [Welcome ''client_1'' ''2025-01-01T00:00:00'' available_sources ''1.0.0'' 0 1] \<and>
   outbox (step env0 (Message 1 (Inr (JArr []))) sample_connected) 1 =
     [Welcome ''client_1'' ''2025-01-01T00:00:00'' available_sources ''1.0.0'' 0 1] \<and>
   log (step env0 (Message 1 (Inr (JArr []))) sample_connected) = [AttributeError]"
  using sample_connected_facts
  by (simp add: handle_client_message_def handle_body_def catch_all_def after_handling_def)

text \<open>
  C6, amended: a payload that \<^verbatim>\<open>json.loads\<close> rejects with \<^verbatim>\<open>JSONDecodeError\<close> is answered on
  an open connection with \<^verbatim>\<open>error\<close>, the message \<^verbatim>\<open>Invalid JSON message\<close> and the timestamp,
  and nothing else changes. A payload that fails in any other way (\<^verbatim>\<open>json.loads\<close> raises
  another exception, or returns a value that is not an object) gets no reply: the exception
  is printed and nothing else changes. An object whose \<^verbatim>\<open>type\<close> is none of
  \<^verbatim>\<open>subscribe\<close>, \<^verbatim>\<open>unsubscribe\<close>, \<^verbatim>\<open>ping\<close> is ignored. In all these cases the handler of an
  open connection goes on waiting for messages, and the registry, the connection and the
  generators stay as they are.
\<close>

theorem malformed_payload_handling:
  "(conn_open s w \<longrightarrow>
      handle_client_message e w (Inl JSONDecodeError) s =
        (Returned, s\<lparr>outbox := (outbox s)(w := outbox s w @
           [Error ''Invalid JSON message'' (now_iso e)])\<rparr>)) \<and>
   (err \<noteq> JSONDecodeError \<longrightarrow>
      handle_client_message e w (Inl err) s = (Returned, s\<lparr>log := log s @ [err]\<rparr>)) \<and>
   ((\<forall>d. data \<noteq> JObj d) \<longrightarrow>
      handle_client_message e w (Inr data) s = (Returned, s\<lparr>log := log s @ [AttributeError]\<rparr>)) \<and>
   (dict_get d ''type'' JNull \<noteq> JStr ''subscribe'' \<and> dict_get d ''type'' JNull \<noteq> JStr ''unsubscribe'' \<and>
    dict_get d ''type'' JNull \<noteq> JStr ''ping'' \<longrightarrow>
      handle_client_message e w (Inr (JObj d)) s = (Returned, s)) \<and>
   (task s w = Idle \<and> conn_open s w \<and> \<not> subscribe_request loaded \<longrightarrow>
      task (step e (Message w loaded) s) w = Idle \<and>
      conn_open (step e (Message w loaded) s) = conn_open s \<and>
      clients (step e (Message w loaded) s) = clients s \<and>
      data_generators (step e (Message w loaded) s) = data_generators s)"
proof -
  have a: "conn_open s w \<longrightarrow>
      handle_client_message e w (Inl JSONDecodeError) s =
        (Returned, s\<lparr>outbox := (outbox s)(w := outbox s w @
           [Error ''Invalid JSON message'' (now_iso e)])\<rparr>)"
    by (simp add: handle_client_message_def send_or_raise_def send_def)
  have b: "err \<noteq> JSONDecodeError \<longrightarrow>
      handle_client_message e w (Inl err) s = (Returned, s\<lparr>log := log s @ [err]\<rparr>)"
    by (simp add: handle_client_message_def catch_all_def)
  have c: "(\<forall>d. data \<noteq> JObj d) \<longrightarrow>
      handle_client_message e w (Inr data) s = (Returned, s\<lparr>log := log s @ [AttributeError]\<rparr>)"
    by (cases data) (simp_all add: handle_client_message_def handle_body_def catch_all_def)
  have d: "dict_get d ''type'' JNull \<noteq> JStr ''subscribe'' \<and>
      dict_get d ''type'' JNull \<noteq> JStr ''unsubscribe'' \<and>
      dict_get d ''type'' JNull \<noteq> JStr ''ping'' \<longrightarrow>
      handle_client_message e w (Inr (JObj d)) s = (Returned, s)"
    by (simp add: handle_client_message_def handle_body_def catch_all_def)
  have f: "task s w = Idle \<and> conn_open s w \<and> \<not> subscribe_request loaded \<longrightarrow>
      task (step e (Message w loaded) s) w = Idle \<and>
      conn_open (step e (Message w loaded) s) = conn_open s \<and>
      clients (step e (Message w loaded) s) = clients s \<and>
      data_generators (step e (Message w loaded) s) = data_generators s"
  proof
    assume p: "task s w = Idle \<and> conn_open s w \<and> \<not> subscribe_request loaded"
    obtain oc s1 where h: "handle_client_message e w loaded s = (oc, s1)"
      by (cases "handle_client_message e w loaded s")
    from p have ns: "\<not> subscribe_request loaded" by simp
    have "oc = Returned"
    proof (cases loaded)
      case (Inl x)
      with h p show ?thesis
        by (auto simp: handle_client_message_def send_or_raise_def send_def catch_all_def
            split: if_splits)
    next
      case (Inr x)
      obtain oc0 s0 where b: "handle_body e w x s = (oc0, s0)" by (cases "handle_body e w x s")
      from h Inr b have r: "catch_all (oc0, s0) = (oc, s1)" by (simp add: handle_client_message_def)
      from handle_not_subscribe [OF ns h] catch_all_keeps [OF r] show ?thesis
        by (cases oc) auto
    qed
    with h p handle_client_message_keeps [OF h] handle_not_subscribe [OF ns h]
    show "task (step e (Message w loaded) s) w = Idle \<and>
      conn_open (step e (Message w loaded) s) = conn_open s \<and>
      clients (step e (Message w loaded) s) = clients s \<and>
      data_generators (step e (Message w loaded) s) = data_generators s"
      by (simp add: after_handling_def)
  qed
  from a b c d f show ?thesis by blast
qed

theorem malformed_payload_handling_witness:
  "conn_open sample_connected 1 \<and> task sample_connected 1 = Idle \<and>
   outbox (snd (handle_client_message env0 1 (Inl JSONDecodeError) sample_connected)) 1 =
     [Welcome ''client_1'' ''2025-01-01T00:00:00'' available_sources ''1.0.0'' 0 1,
      Error ''Invalid JSON message'' ''2025-01-01T00:00:00''] \<and>
   UnicodeDecodeError \<noteq> JSONDecodeError \<and>
   log (snd (handle_client_message env0 1 (Inl UnicodeDecodeError) sample_connected)) =
     [UnicodeDecodeError] \<and>
   (\<forall>d. JArr [] \<noteq> JObj d) \<and>
   handle_client_message env0 1 (Inr (JArr [])) sample_connected =
     (Returned, sample_connected\<lparr>log := [AttributeError]\<rparr>) \<and>
   handle_client_message env0 1 (Inr (JObj [(''type'', JStr ''hello'')])) sample_connected =
     (Returned, sample_connected) \<and>
   \<not> subscribe_request (Inr (JArr [])) \<and>
   task (step env0 (Message 1 (Inr (JArr []))) sample_connected) 1 = Idle \<and>
   clients (step env0 (Message 1 (Inr (JArr []))) sample_connected) = [1]"
  using malformed_payload_handling [of sample_connected 1 env0 UnicodeDecodeError "JArr []"
      "[(''type'', JStr ''hello'')]" "Inr (JArr [])"] sample_connected_facts
  by (simp add: env0_def dict_get_def del: step.simps)

subsection \<open>Subscribing\<close>















subsection \<open>The statistics broadcast\<close>

text \<open>
  C9. One pass of the statistics loop over a registry that is not empty sends one and the
  same \<^verbatim>\<open>server_stats\<close> frame to every registered client whose connection is open, and
  nothing to anyone else; its \<^verbatim>\<open>clients_connected\<close> is the number of registered clients,
  which does not change while the frame is sent; the clients for which the send failed
  are removed from the registry afterwards.
\<close>

theorem stats_tick_reaches_every_open_client:
  "running s \<Longrightarrow> clients s \<noteq> [] \<Longrightarrow> distinct (clients s) \<Longrightarrow>
   (\<forall>w. outbox (broadcast_tick e s) w =
          (if w \<in> set (clients s) \<and> conn_open s w then outbox s w @ [stats_msg e s]
           else outbox s w)) \<and>
   stats_msg e s =
     ServerStats (now_iso e) (card (set (clients s))) (map fst (data_generators s)) (now_secs e)
       ''N/A'' (sum_list (map (\<lambda>(k, g). length (base_values g)) (data_generators s))) \<and>
   clients (broadcast_tick e s) = filter (conn_open s) (clients s)"
proof -
  assume run: "running s" and ne: "clients s \<noteq> []" and d: "distinct (clients s)"
  obtain disc s1 where r: "send_all (stats_msg e s) (clients s) [] s = (disc, s1)"
    by (cases "send_all (stats_msg e s) (clients s) [] s")
  from run ne r have t: "broadcast_tick e s = s1\<lparr>clients := set_minus (clients s1) disc\<rparr>"
    by (simp add: broadcast_tick_def)
  note k = send_all_keeps [OF r] and ef = send_all_effect [OF d r]
  have o: "\<forall>w. outbox (broadcast_tick e s) w =
          (if w \<in> set (clients s) \<and> conn_open s w then outbox s w @ [stats_msg e s]
           else outbox s w)"
    using ef by (simp add: t)
  have m: "stats_msg e s =
     ServerStats (now_iso e) (card (set (clients s))) (map fst (data_generators s)) (now_secs e)
       ''N/A'' (sum_list (map (\<lambda>(k, g). length (base_values g)) (data_generators s)))"
    using d by (simp add: stats_msg_def distinct_card)
  have "set_minus (clients s) disc = filter (conn_open s) (clients s)"
    unfolding set_minus_def using ef by (intro filter_cong) auto
  then have c: "clients (broadcast_tick e s) = filter (conn_open s) (clients s)"
    using k by (simp add: t)
  from o m c show ?thesis by blast
qed

theorem stats_tick_reaches_every_open_client_witness:
  "running sample_two \<and> clients sample_two \<noteq> [] \<and> distinct (clients sample_two) \<and>
   outbox (broadcast_tick env0 sample_two) 2 =
     [Welcome ''client_2'' ''2025-01-01T00:00:00'' available_sources ''1.0.0'' 0 2,
      ServerStats ''2025-01-01T00:00:00'' 2 [] 0 ''N/A'' 0] \<and>
   outbox (broadcast_tick env0 sample_two) 1 =
     [Welcome ''client_1'' ''2025-01-01T00:00:00'' available_sources ''1.0.0'' 0 1] \<and>
   clients (broadcast_tick env0 sample_two) = [2]"
proof -
  have r: "running sample_two" and n: "clients sample_two \<noteq> []"
    and d: "distinct (clients sample_two)"
    using sample_two_facts by simp_all
  from stats_tick_reaches_every_open_client [OF r n d, of env0] sample_two_facts r n d
  show ?thesis by (simp add: env0_def)
qed

subsection \<open>Client identifiers\<close>

text \<open>
  C10. The identifier given at connect is \<^verbatim>\<open>client_\<close> followed by the size of the registry
  right after the connection is added, and the welcome frame carries it. Identifiers are
  reused: there is a run after which two different connections, both registered and both
  with a live handler, have the same identifier.
\<close>

theorem client_id_is_registry_size:
  "client_id (register_enter e w s) w = ''client_'' @ str_nat (length (set_add w (clients s))) \<and>
   (conn_open s w \<longrightarrow>
      outbox (register_enter e w s) w = outbox s w @
        [Welcome (''client_'' @ str_nat (length (set_add w (clients s)))) (now_iso e)
           available_sources ''1.0.0'' (now_secs e) (length (set_add w (clients s)))] \<and>
      clients (register_enter e w s) = set_add w (clients s) \<and>
      task (register_enter e w s) w = Idle) \<and>
   (\<exists>evs w1 w2. w1 \<noteq> w2 \<and>
      w1 \<in> set (clients (run evs (start_server StreamingServer_init))) \<and>
      w2 \<in> set (clients (run evs (start_server StreamingServer_init))) \<and>
      task (run evs (start_server StreamingServer_init)) w1 = Idle \<and>
      task (run evs (start_server StreamingServer_init)) w2 = Idle \<and>
      client_id (run evs (start_server StreamingServer_init)) w1 =
        client_id (run evs (start_server StreamingServer_init)) w2)"
proof -
  have a: "client_id (register_enter e w s) w =
      ''client_'' @ str_nat (length (set_add w (clients s)))"
    by (simp add: register_enter_def register_finish_def set_remove_def send_def Let_def)
  have b: "conn_open s w \<longrightarrow>
      outbox (register_enter e w s) w = outbox s w @
        [Welcome (''client_'' @ str_nat (length (set_add w (clients s)))) (now_iso e)
           available_sources ''1.0.0'' (now_secs e) (length (set_add w (clients s)))] \<and>
      clients (register_enter e w s) = set_add w (clients s) \<and>
      task (register_enter e w s) w = Idle"
    by (simp add: register_enter_def send_def Let_def)
  have "(2::nat) \<noteq> 3 \<and> 2 \<in> set (clients sample_reuse) \<and> 3 \<in> set (clients sample_reuse) \<and>
      task sample_reuse 2 = Idle \<and> task sample_reuse 3 = Idle \<and>
      client_id sample_reuse 2 = client_id sample_reuse 3"
    using sample_reuse_facts by simp
  then have c: "\<exists>evs w1 w2. w1 \<noteq> w2 \<and>
      w1 \<in> set (clients (run evs (start_server StreamingServer_init))) \<and>
      w2 \<in> set (clients (run evs (start_server StreamingServer_init))) \<and>
      task (run evs (start_server StreamingServer_init)) w1 = Idle \<and>
      task (run evs (start_server StreamingServer_init)) w2 = Idle \<and>
      client_id (run evs (start_server StreamingServer_init)) w1 =
        client_id (run evs (start_server StreamingServer_init)) w2"
    unfolding sample_reuse_def by blast
  from a b c show ?thesis by blast
qed

theorem client_id_is_registry_size_witness:
  "conn_open (start_server StreamingServer_init) 7 \<and>
   client_id (register_enter env0 7 (start_server StreamingServer_init)) 7 = ''client_1'' \<and>
   outbox (register_enter env0 7 (start_server StreamingServer_init)) 7 =
     [Welcome ''client_1'' ''2025-01-01T00:00:00'' available_sources ''1.0.0'' 0 1] \<and>
   clients (register_enter env0 7 (start_server StreamingServer_init)) = [7] \<and>
   task (register_enter env0 7 (start_server StreamingServer_init)) 7 = Idle"
proof -
  have c: "conn_open (start_server StreamingServer_init) 7"
    by (simp add: start_server_def StreamingServer_init_def)
  have l: "set_add (7::nat) (clients (start_server StreamingServer_init)) = [7]"
    by (simp add: start_server_def StreamingServer_init_def set_add_def)
  have o: "outbox (start_server StreamingServer_init) 7 = []"
    by (simp add: start_server_def StreamingServer_init_def)
  have n: "str_nat (Suc 0) = ''1''" by (simp add: str_nat.simps digit_def)
  from client_id_is_registry_size [of env0 7 "start_server StreamingServer_init"] c
  show ?thesis by (simp add: l o n env0_def)
qed

subsection \<open>Removal from the registry\<close>

text \<open>
  C7. The claim: removing a connection that is not in the registry is a no-op, never an
  error, also when the statistics loop has removed it first. In the code the handler's
  \<^verbatim>\<open>finally\<close> clause calls \<^verbatim>\<open>set.remove\<close>: after a connection is lost and a pass of the
  statistics loop has taken the client out of the registry, the handler ends with
  \<^verbatim>\<open>KeyError\<close>.
\<close>

theorem handler_removal_raises_KeyError:
  "task (run [(env0, Connect 1), (env0, PeerClose 1), (env0, Tick), (env0, HandlerEnd 1)]
           (start_server StreamingServer_init)) 1 = Finished (Some KeyError) \<and>
   clients (run [(env0, Connect 1), (env0, PeerClose 1), (env0, Tick)]
           (start_server StreamingServer_init)) = [] \<and>
   set_remove (1::nat) [] = Inl KeyError"
  by (simp add: eval_defs broadcast_tick_def stats_msg_def set_minus_def)

end
